theory Spec2Isabelle
  imports Main "HOL-Library.State_Monad"
begin

section \<open>Data carriers read by the strategy\<close>

text \<open>
  Modelled from the spec: \<open>OpponentInfo\<close> and \<open>StrategyContext\<close> are declared in
  \<open>flip_7.simulation.strategy\<close>, which is not part of \<open>threshold.py\<close>. The records hold
  the fields that \<open>threshold.py\<close> reads, with the types the data model gives them:
  identifiers are Python strings, scores and counts are Python (unbounded) integers.
\<close>

record opponent_info =
  player_id :: string
  total_score :: int
  round_score :: int
  has_stayed :: bool
  is_busted :: bool

record strategy_context =
  my_player_id :: string
  my_round_score :: int
  my_flip_three_active :: bool
  my_flip_three_count :: int
  opponents :: "opponent_info list"

text \<open>
  The attributes of a \<open>ThresholdStrategy\<close> object: \<open>name\<close> is handed to the base class
  constructor, \<open>target_score\<close> and \<open>distance_from_200\<close> are set in \<open>__init__\<close>.
\<close>

record threshold_strategy =
  name :: string
  target_score :: int
  distance_from_200 :: int

text \<open>The Python exceptions that the built-ins used by the methods can raise.\<close>

datatype py_error = IndexError | KeyError | ValueError

section \<open>Python built-ins used by the methods\<close>

text \<open>\<open>str(n)\<close> for a Python integer: decimal digits, with a minus sign when negative.\<close>

fun str_nat :: "nat \<Rightarrow> string" where
  "str_nat n =
     (if n < 10 then [char_of (48 + n)]
      else str_nat (n div 10) @ [char_of (48 + n mod 10)])"

definition str_int :: "int \<Rightarrow> string" where
  "str_int i = (if i < 0 then CHR ''-'' # str_nat (nat (- i)) else str_nat (nat i))"

text \<open>
  \<open>xs[i]\<close> on a list: \<open>py_index\<close> is the position that is read. A position from
  the front is taken as it is, \<open>-1\<close> down to \<open>-len(xs)\<close> count back from the end, and
  anything else raises \<open>IndexError\<close>.
\<close>

definition py_index :: "'a list \<Rightarrow> int \<Rightarrow> py_error + nat" where
  "py_index xs i =
     (if 0 \<le> i \<and> i < int (length xs) then Inr (nat i)
      else if i < 0 \<and> - i \<le> int (length xs) then Inr (nat (int (length xs) + i))
      else Inl IndexError)"

definition py_getitem :: "'a list \<Rightarrow> int \<Rightarrow> py_error + 'a" where
  "py_getitem xs i = map_sum id (\<lambda>pos. xs ! pos) (py_index xs i)"

text \<open>
  A Python \<open>dict\<close> keeps its keys in the order of their first insertion; storing under
  a key that is present replaces the value and leaves the key where it is. The model is
  an association list in insertion order.
\<close>

fun dict_setitem :: "('k \<times> 'v) list \<Rightarrow> 'k \<Rightarrow> 'v \<Rightarrow> ('k \<times> 'v) list" where
  "dict_setitem [] k v = [(k, v)]"
| "dict_setitem ((k', v') # d) k v =
     (if k' = k then (k', v) # d else (k', v') # dict_setitem d k v)"

fun dict_getitem :: "('k \<times> 'v) list \<Rightarrow> 'k \<Rightarrow> py_error + 'v" where
  "dict_getitem [] k = Inl KeyError"
| "dict_getitem ((k', v') # d) k = (if k' = k then Inr v' else dict_getitem d k)"

definition dict_keys :: "('k \<times> 'v) list \<Rightarrow> 'k list" where
  "dict_keys d = map fst d"

text \<open>\<open>{k: v for ...}\<close>: the pairs are stored one after the other into an empty dict.\<close>

definition dict_of_pairs :: "('k \<times> 'v) list \<Rightarrow> ('k \<times> 'v) list" where
  "dict_of_pairs ps = foldl (\<lambda>d (k, v). dict_setitem d k v) [] ps"

text \<open>
  \<open>max(xs, key=f)\<close>: the key of every item is computed once, in order; an item replaces
  the best one so far only when its key is strictly greater, so the first of several
  maximal items is returned. An empty \<open>xs\<close> raises \<open>ValueError\<close>; an exception of the
  key function is passed on.
\<close>

fun py_max_loop :: "('a \<Rightarrow> py_error + int) \<Rightarrow> 'a \<Rightarrow> int \<Rightarrow> 'a list \<Rightarrow> py_error + 'a" where
  "py_max_loop key best best_key [] = Inr best"
| "py_max_loop key best best_key (x # xs) =
     (case key x of
        Inl e \<Rightarrow> Inl e
      | Inr k \<Rightarrow> if k > best_key then py_max_loop key x k xs
                 else py_max_loop key best best_key xs)"

definition py_max :: "('a \<Rightarrow> py_error + int) \<Rightarrow> 'a list \<Rightarrow> py_error + 'a" where
  "py_max key xs =
     (case xs of
        [] \<Rightarrow> Inl ValueError
      | x # rest \<Rightarrow> (case key x of Inl e \<Rightarrow> Inl e | Inr k \<Rightarrow> py_max_loop key x k rest))"

section \<open>ThresholdStrategy\<close>

text \<open>
  \<open>__init__(name=None, target_score=100, distance_from_200=0)\<close>: an argument left out
  is \<open>None\<close> here. \<open>name or f"Threshold({target_score})"\<close> takes the default name also
  for the empty string, which is falsy.
\<close>

definition init :: "string option \<Rightarrow> int option \<Rightarrow> int option \<Rightarrow> threshold_strategy" where
  "init custom_name target distance =
     (let target_score = (case target of None \<Rightarrow> 100 | Some t \<Rightarrow> t);
          distance_from_200 = (case distance of None \<Rightarrow> 0 | Some d \<Rightarrow> d);
          default_name = ''Threshold('' @ str_int target_score @ '')''
      in \<lparr> name = (case custom_name of
                      None \<Rightarrow> default_name
                    | Some n \<Rightarrow> if n = [] then default_name else n),
           target_score = target_score,
           distance_from_200 = distance_from_200 \<rparr>)"

text \<open>
  \<open>opponent_can_win\<close>: the \<open>for\<close> loop over \<open>context.opponents\<close>, returning at the first
  opponent that meets one of the two tests.
\<close>

fun opponent_can_win_loop :: "threshold_strategy \<Rightarrow> opponent_info list \<Rightarrow> bool" where
  "opponent_can_win_loop self [] = False"
| "opponent_can_win_loop self (opponent # rest) =
     (if total_score opponent \<ge> 200 then True
      else if (\<not> (has_stayed opponent \<or> is_busted opponent))
              \<and> (total_score opponent + round_score opponent \<ge> 200 - distance_from_200 self)
           then True
      else opponent_can_win_loop self rest)"

definition opponent_can_win :: "threshold_strategy \<Rightarrow> strategy_context \<Rightarrow> bool" where
  "opponent_can_win self ctx = opponent_can_win_loop self (opponents ctx)"

definition decide_hit_or_stay :: "threshold_strategy \<Rightarrow> strategy_context \<Rightarrow> bool" where
  "decide_hit_or_stay self ctx =
     (if my_flip_three_active ctx \<and> my_flip_three_count ctx > 0 then True
      else my_round_score ctx < target_score self \<or> opponent_can_win self ctx)"

text \<open>\<open>NumberCard\<close> is declared outside \<open>threshold.py\<close>; the method only passes cards on.\<close>

definition decide_second_chance_discard ::
    "threshold_strategy \<Rightarrow> strategy_context \<Rightarrow> int \<Rightarrow> 'card list \<Rightarrow> py_error + 'card" where
  "decide_second_chance_discard self ctx duplicate_value duplicate_cards =
     py_getitem duplicate_cards (- 1)"

definition decide_flip_three_target ::
    "threshold_strategy \<Rightarrow> strategy_context \<Rightarrow> string list \<Rightarrow> py_error + string" where
  "decide_flip_three_target self ctx possible_targets =
     (let opponent_ids =
            map player_id
              (filter (\<lambda>opp. player_id opp \<in> set possible_targets) (opponents ctx))
      in if opponent_ids = [] then Inr (my_player_id ctx)
         else
           let opponent_scores =
                 dict_of_pairs
                   (map (\<lambda>opp. (player_id opp, total_score opp))
                      (filter (\<lambda>opp. player_id opp \<in> set opponent_ids) (opponents ctx)))
           in py_max (\<lambda>pid. dict_getitem opponent_scores pid) (dict_keys opponent_scores))"

definition decide_freeze_target ::
    "threshold_strategy \<Rightarrow> strategy_context \<Rightarrow> string list \<Rightarrow> py_error + string" where
  "decide_freeze_target self ctx possible_targets =
     (if my_round_score ctx \<ge> target_score self then Inr (my_player_id ctx)
      else
        let opponent_ids =
              map player_id
                (filter (\<lambda>opp. player_id opp \<in> set possible_targets) (opponents ctx))
        in if opponent_ids = [] then Inr (my_player_id ctx)
           else
             let opponent_scores =
                   dict_of_pairs
                     (map (\<lambda>opp. (player_id opp, total_score opp))
                        (filter (\<lambda>opp. player_id opp \<in> set opponent_ids) (opponents ctx)))
             in py_max (\<lambda>pid. dict_getitem opponent_scores pid) (dict_keys opponent_scores))"

section \<open>The methods as programs on the object\<close>

text \<open>
  The methods once more, now as state transformers on the object: an attribute is read
  from the object at the place where the source reads it (\<open>State_Monad.get\<close>), an
  assignment to an attribute would be a \<open>State_Monad.set\<close>, and a call of another method
  runs on the object as the caller left it. The object that a method leaves behind is
  part of what it returns, so whether a method changes \<open>target_score\<close> or
  \<open>distance_from_200\<close>, and whether an answer depends on the calls made before, can be
  read off these programs.
\<close>

fun opponent_can_win_m_loop :: "opponent_info list \<Rightarrow> (threshold_strategy, bool) state" where
  "opponent_can_win_m_loop [] = State_Monad.return False"
| "opponent_can_win_m_loop (opponent # rest) =
     (if total_score opponent \<ge> 200 then State_Monad.return True
      else do {
        self \<leftarrow> State_Monad.get;
        if (\<not> (has_stayed opponent \<or> is_busted opponent))
           \<and> (total_score opponent + round_score opponent \<ge> 200 - distance_from_200 self)
        then State_Monad.return True
        else opponent_can_win_m_loop rest
      })"

definition opponent_can_win_m :: "strategy_context \<Rightarrow> (threshold_strategy, bool) state" where
  "opponent_can_win_m ctx = opponent_can_win_m_loop (opponents ctx)"

text \<open>\<open>a or b\<close> evaluates \<open>b\<close>, here the call of \<open>opponent_can_win\<close>, only when \<open>a\<close> is false.\<close>

definition decide_hit_or_stay_m :: "strategy_context \<Rightarrow> (threshold_strategy, bool) state" where
  "decide_hit_or_stay_m ctx =
     (if my_flip_three_active ctx \<and> my_flip_three_count ctx > 0 then State_Monad.return True
      else do {
        self \<leftarrow> State_Monad.get;
        if my_round_score ctx < target_score self then State_Monad.return True
        else opponent_can_win_m ctx
      })"

definition decide_second_chance_discard_m ::
    "strategy_context \<Rightarrow> int \<Rightarrow> 'card list \<Rightarrow> (threshold_strategy, py_error + 'card) state" where
  "decide_second_chance_discard_m ctx duplicate_value duplicate_cards =
     State_Monad.return (py_getitem duplicate_cards (- 1))"

definition decide_flip_three_target_m ::
    "strategy_context \<Rightarrow> string list \<Rightarrow> (threshold_strategy, py_error + string) state" where
  "decide_flip_three_target_m ctx possible_targets =
     (let opponent_ids =
            map player_id
              (filter (\<lambda>opp. player_id opp \<in> set possible_targets) (opponents ctx))
      in if opponent_ids = [] then State_Monad.return (Inr (my_player_id ctx))
         else
           let opponent_scores =
                 dict_of_pairs
                   (map (\<lambda>opp. (player_id opp, total_score opp))
                      (filter (\<lambda>opp. player_id opp \<in> set opponent_ids) (opponents ctx)))
           in State_Monad.return
                (py_max (\<lambda>pid. dict_getitem opponent_scores pid) (dict_keys opponent_scores)))"

definition decide_freeze_target_m ::
    "strategy_context \<Rightarrow> string list \<Rightarrow> (threshold_strategy, py_error + string) state" where
  "decide_freeze_target_m ctx possible_targets =
     do {
       self \<leftarrow> State_Monad.get;
       if my_round_score ctx \<ge> target_score self then State_Monad.return (Inr (my_player_id ctx))
       else
         let opponent_ids =
               map player_id
                 (filter (\<lambda>opp. player_id opp \<in> set possible_targets) (opponents ctx))
         in if opponent_ids = [] then State_Monad.return (Inr (my_player_id ctx))
            else
              let opponent_scores =
                    dict_of_pairs
                      (map (\<lambda>opp. (player_id opp, total_score opp))
                         (filter (\<lambda>opp. player_id opp \<in> set opponent_ids) (opponents ctx)))
              in State_Monad.return
                   (py_max (\<lambda>pid. dict_getitem opponent_scores pid) (dict_keys opponent_scores))
     }"

text \<open>A call of one of the five operations with its arguments, and what it answers.\<close>

datatype 'card call =
    Decide_hit_or_stay strategy_context
  | Decide_second_chance_discard strategy_context int "'card list"
  | Decide_flip_three_target strategy_context "string list"
  | Decide_freeze_target strategy_context "string list"
  | Opponent_can_win strategy_context

datatype 'card reply =
    Hit bool
  | Discard "py_error + 'card"
  | Target "py_error + string"

fun invoke :: "'card call \<Rightarrow> (threshold_strategy, 'card reply) state" where
  "invoke (Decide_hit_or_stay ctx) = do { b \<leftarrow> decide_hit_or_stay_m ctx; State_Monad.return (Hit b) }"
| "invoke (Decide_second_chance_discard ctx v cards) =
     do { c \<leftarrow> decide_second_chance_discard_m ctx v cards; State_Monad.return (Discard c) }"
| "invoke (Decide_flip_three_target ctx ts) =
     do { t \<leftarrow> decide_flip_three_target_m ctx ts; State_Monad.return (Target t) }"
| "invoke (Decide_freeze_target ctx ts) =
     do { t \<leftarrow> decide_freeze_target_m ctx ts; State_Monad.return (Target t) }"
| "invoke (Opponent_can_win ctx) = do { b \<leftarrow> opponent_can_win_m ctx; State_Monad.return (Hit b) }"

text \<open>
  A sequence of calls on one object: each call runs on the object as the calls before
  left it.
\<close>

fun run :: "'card call list \<Rightarrow> (threshold_strategy, 'card reply list) state" where
  "run [] = State_Monad.return []"
| "run (c # cs) = do { r \<leftarrow> invoke c; rs \<leftarrow> run cs; State_Monad.return (r # rs) }"

section \<open>Notions of the specification\<close>

text \<open>
  The eligible opponents of a targeting decision: the opponents whose \<open>player_id\<close>
  appears in \<open>possible_targets\<close>, in the order of \<open>context.opponents\<close>.
\<close>

definition eligible_opponents :: "strategy_context \<Rightarrow> string list \<Rightarrow> opponent_info list" where
  "eligible_opponents ctx possible_targets =
     filter (\<lambda>opp. player_id opp \<in> set possible_targets) (opponents ctx)"

text \<open>
  What makes one opponent a threat in \<open>opponent_can_win\<close>: a banked total of 200 or
  more, or, while still active in the round, a total plus round score within
  \<open>distance_from_200\<close> of 200.
\<close>

definition threatens :: "threshold_strategy \<Rightarrow> opponent_info \<Rightarrow> bool" where
  "threatens self opp =
     (total_score opp \<ge> 200 \<or>
      (\<not> has_stayed opp \<and> \<not> is_busted opp \<and>
       total_score opp + round_score opp \<ge> 200 - distance_from_200 self))"

section \<open>Facts about the built-ins\<close>

lemma py_index_last: "xs \<noteq> [] \<Longrightarrow> py_index xs (- 1) = Inr (length xs - 1)"
  by (cases xs) (simp_all add: py_index_def)

lemma dict_setitem_fresh:
  "k \<notin> fst ` set d \<Longrightarrow> dict_setitem d k v = d @ [(k, v)]"
  by (induction d) auto

lemma key_of_item: "(k, v) \<in> set d \<Longrightarrow> k \<in> fst ` set d"
  by force

lemma dict_setitem_keys_list:
  "map fst (dict_setitem d k v) = (if k \<in> fst ` set d then map fst d else map fst d @ [k])"
  by (induction d) (auto dest: key_of_item)

lemma dict_setitem_keys:
  "fst ` set (dict_setitem d k v) = insert k (fst ` set d)"
proof -
  have "set (map fst (dict_setitem d k v)) = insert k (set (map fst d))"
    unfolding dict_setitem_keys_list by auto
  then show ?thesis by simp
qed

lemma dict_fold_keys:
  "fst ` set (foldl (\<lambda>d (k, v). dict_setitem d k v) d ps) = fst ` set d \<union> fst ` set ps"
proof (induction ps arbitrary: d)
  case Nil
  then show ?case by simp
next
  case (Cons p ps)
  obtain k v where p: "p = (k, v)" by (cases p)
  show ?case by (simp add: p Cons.IH dict_setitem_keys)
qed

lemma dict_of_pairs_keys: "set (dict_keys (dict_of_pairs ps)) = fst ` set ps"
  by (simp add: dict_keys_def dict_of_pairs_def dict_fold_keys)

lemma dict_fold_distinct:
  "distinct (map fst (d @ ps)) \<Longrightarrow> foldl (\<lambda>d (k, v). dict_setitem d k v) d ps = d @ ps"
proof (induction ps arbitrary: d)
  case Nil
  then show ?case by simp
next
  case (Cons p ps)
  obtain k v where p: "p = (k, v)" by (cases p)
  from Cons.prems have fresh: "k \<notin> fst ` set d" by (auto simp: p)
  from Cons.prems have "distinct (map fst ((d @ [(k, v)]) @ ps))" by (simp add: p)
  from Cons.IH [OF this] show ?case by (simp add: p dict_setitem_fresh [OF fresh])
qed

lemma dict_of_pairs_distinct: "distinct (map fst ps) \<Longrightarrow> dict_of_pairs ps = ps"
  using dict_fold_distinct [of "[]" ps] by (simp add: dict_of_pairs_def)

lemma dict_getitem_present:
  "k \<in> fst ` set d \<Longrightarrow> \<exists>v. dict_getitem d k = Inr v"
  by (induction d) force+

lemma dict_getitem_distinct:
  "distinct (map fst d) \<Longrightarrow> (k, v) \<in> set d \<Longrightarrow> dict_getitem d k = Inr v"
  by (induction d) (auto simp: image_iff)

lemma py_max_loop_returns:
  "\<forall>x \<in> set xs. \<exists>v. key x = Inr v \<Longrightarrow>
   \<exists>r \<in> set (best # xs). py_max_loop key best best_key xs = Inr r"
proof (induction xs arbitrary: best best_key)
  case Nil
  then show ?case by simp
next
  case (Cons x xs)
  then obtain v where v: "key x = Inr v" by auto
  from Cons.prems have rest: "\<forall>y \<in> set xs. \<exists>w. key y = Inr w" by simp
  show ?case
  proof (cases "v > best_key")
    case True
    with Cons.IH [OF rest, of x v] v show ?thesis by auto
  next
    case False
    with Cons.IH [OF rest, of best best_key] v show ?thesis by auto
  qed
qed

lemma py_max_returns:
  "xs \<noteq> [] \<Longrightarrow> \<forall>x \<in> set xs. \<exists>v. key x = Inr v \<Longrightarrow> \<exists>r \<in> set xs. py_max key xs = Inr r"
proof (cases xs)
  case Nil
  assume "xs \<noteq> []" with Nil show ?thesis by simp
next
  case (Cons x rest)
  assume keys: "\<forall>x \<in> set xs. \<exists>v. key x = Inr v"
  then obtain v where v: "key x = Inr v" using Cons by auto
  from keys Cons have "\<forall>y \<in> set rest. \<exists>w. key y = Inr w" by simp
  from py_max_loop_returns [OF this, of x v] show ?thesis
    by (simp add: py_max_def Cons v)
qed

lemma py_max_loop_first_max:
  assumes "\<forall>y \<in> set ys. key (g y) = Inr (h y)"
    and "\<forall>y \<in> set pre. h y < h b"
    and "\<forall>y \<in> set mid. h y \<le> h b"
  shows "\<exists>pre' r post'. pre @ b # mid @ ys = pre' @ r # post' \<and>
           py_max_loop key (g b) (h b) (map g ys) = Inr (g r) \<and>
           (\<forall>y \<in> set pre'. h y < h r) \<and> (\<forall>y \<in> set post'. h y \<le> h r)"
  using assms
proof (induction ys arbitrary: pre b mid)
  case Nil
  then show ?case by auto
next
  case (Cons y ys)
  from Cons.prems(1) have ky: "key (g y) = Inr (h y)" and rest: "\<forall>z \<in> set ys. key (g z) = Inr (h z)"
    by simp_all
  show ?case
  proof (cases "h y > h b")
    case True
    have p: "\<forall>z \<in> set (pre @ b # mid). h z < h y"
      using True Cons.prems(2,3) by fastforce
    have m: "\<forall>z \<in> set ([]::'a list). h z \<le> h y" by simp
    from Cons.IH [OF rest p m] True ky show ?thesis by simp
  next
    case False
    have m: "\<forall>z \<in> set (mid @ [y]). h z \<le> h b"
      using False Cons.prems(3) by auto
    from Cons.IH [OF rest Cons.prems(2) m] False ky show ?thesis by simp
  qed
qed

lemma py_max_first_max:
  assumes "ys \<noteq> []" and "\<forall>y \<in> set ys. key (g y) = Inr (h y)"
  shows "\<exists>pre r post. ys = pre @ r # post \<and> py_max key (map g ys) = Inr (g r) \<and>
           (\<forall>y \<in> set pre. h y < h r) \<and> (\<forall>y \<in> set post. h y \<le> h r)"
proof (cases ys)
  case Nil
  with assms(1) show ?thesis by simp
next
  case (Cons b rest)
  from assms(2) Cons have kb: "key (g b) = Inr (h b)" and kr: "\<forall>y \<in> set rest. key (g y) = Inr (h y)"
    by simp_all
  have "\<forall>y \<in> set ([]::'a list). h y < h b" and "\<forall>y \<in> set ([]::'a list). h y \<le> h b"
    by simp_all
  from py_max_loop_first_max [of rest key g h "[]" b "[]", OF kr this]
  show ?thesis by (simp add: py_max_def Cons kb)
qed

section \<open>The opponent scan\<close>

lemma opponent_can_win_loop_iff:
  "opponent_can_win_loop self os = (\<exists>opp \<in> set os. threatens self opp)"
  by (induction os) (auto simp: threatens_def)

text \<open>
  C2. \<open>opponent_can_win\<close> returns true exactly when some opponent has a
  \<open>total_score\<close> of at least 200 (whether or not that opponent has stayed or busted), or
  some opponent that has neither stayed nor busted has
  \<open>total_score + round_score \<ge> 200 - distance_from_200\<close>; otherwise it returns false.
\<close>

theorem opponent_can_win_iff:
  "opponent_can_win self ctx =
     ((\<exists>opp \<in> set (opponents ctx). total_score opp \<ge> 200)
      \<or> (\<exists>opp \<in> set (opponents ctx).
            \<not> has_stayed opp \<and> \<not> is_busted opp
            \<and> total_score opp + round_score opp \<ge> 200 - distance_from_200 self))"
  unfolding opponent_can_win_def opponent_can_win_loop_iff threatens_def by blast

theorem opponent_can_win_iff_witness:
  "opponent_can_win (init None None None)
     \<lparr> my_player_id = ''p1'', my_round_score = 120, my_flip_three_active = False,
       my_flip_three_count = 0,
       opponents = [\<lparr> player_id = ''p2'', total_score = 150, round_score = 40,
                      has_stayed = False, is_busted = False \<rparr>,
                    \<lparr> player_id = ''p3'', total_score = 200, round_score = 0,
                      has_stayed = True, is_busted = True \<rparr>] \<rparr> = True
   \<and> opponent_can_win (init None None None)
     \<lparr> my_player_id = ''p1'', my_round_score = 120, my_flip_three_active = False,
       my_flip_three_count = 0,
       opponents = [\<lparr> player_id = ''p2'', total_score = 150, round_score = 60,
                      has_stayed = True, is_busted = False \<rparr>,
                    \<lparr> player_id = ''p3'', total_score = 199, round_score = 1,
                      has_stayed = False, is_busted = True \<rparr>] \<rparr> = False
   \<and> opponent_can_win (init None None (Some 10))
     \<lparr> my_player_id = ''p1'', my_round_score = 120, my_flip_three_active = False,
       my_flip_three_count = 0,
       opponents = [\<lparr> player_id = ''p2'', total_score = 150, round_score = 40,
                      has_stayed = False, is_busted = False \<rparr>] \<rparr> = True"
  by (simp add: opponent_can_win_iff init_def)

section \<open>Forced draws and the threshold rule\<close>

text \<open>
  C4. Whenever \<open>my_flip_three_active\<close> is true and \<open>my_flip_three_count > 0\<close>,
  \<open>decide_hit_or_stay\<close> returns true, whatever the round score, the target score and the
  opponents are.
\<close>

theorem decide_hit_or_stay_forced_draw:
  "my_flip_three_active ctx \<Longrightarrow> my_flip_three_count ctx > 0 \<Longrightarrow> decide_hit_or_stay self ctx"
  by (simp add: decide_hit_or_stay_def)

theorem decide_hit_or_stay_forced_draw_witness:
  "my_flip_three_active
     \<lparr> my_player_id = ''p1'', my_round_score = 150, my_flip_three_active = True,
       my_flip_three_count = 2, opponents = [] \<rparr>
   \<and> my_flip_three_count
     \<lparr> my_player_id = ''p1'', my_round_score = 150, my_flip_three_active = True,
       my_flip_three_count = 2, opponents = [] \<rparr> > 0
   \<and> decide_hit_or_stay (init None None None)
     \<lparr> my_player_id = ''p1'', my_round_score = 150, my_flip_three_active = True,
       my_flip_three_count = 2, opponents = [] \<rparr>"
proof -
  let ?ctx = "\<lparr> my_player_id = ''p1'', my_round_score = 150, my_flip_three_active = True,
                my_flip_three_count = 2, opponents = [] \<rparr>"
  have active: "my_flip_three_active ?ctx" and count: "my_flip_three_count ?ctx > 0"
    by simp_all
  from decide_hit_or_stay_forced_draw [OF active count, of "init None None None"] active count
  show ?thesis by simp
qed

text \<open>
  C1. When the forced draw is inactive (\<open>my_flip_three_active\<close> is false or
  \<open>my_flip_three_count \<le> 0\<close>), \<open>decide_hit_or_stay\<close> returns true if and only if
  \<open>my_round_score < target_score\<close> or \<open>opponent_can_win\<close> returns true; it returns
  false exactly when \<open>my_round_score \<ge> target_score\<close> and no opponent is a threat.
\<close>

theorem decide_hit_or_stay_threshold_rule:
  assumes "\<not> (my_flip_three_active ctx \<and> my_flip_three_count ctx > 0)"
  shows "decide_hit_or_stay self ctx
           = (my_round_score ctx < target_score self \<or> opponent_can_win self ctx)
         \<and> (\<not> decide_hit_or_stay self ctx)
           = (my_round_score ctx \<ge> target_score self
              \<and> (\<forall>opp \<in> set (opponents ctx). \<not> threatens self opp))"
  using assms
  by (auto simp: decide_hit_or_stay_def opponent_can_win_def opponent_can_win_loop_iff)

theorem decide_hit_or_stay_threshold_rule_witness:
  "\<not> (my_flip_three_active
        \<lparr> my_player_id = ''p1'', my_round_score = 120, my_flip_three_active = True,
          my_flip_three_count = 0,
          opponents = [\<lparr> player_id = ''p2'', total_score = 150, round_score = 40,
                         has_stayed = False, is_busted = False \<rparr>] \<rparr>
      \<and> my_flip_three_count
        \<lparr> my_player_id = ''p1'', my_round_score = 120, my_flip_three_active = True,
          my_flip_three_count = 0,
          opponents = [\<lparr> player_id = ''p2'', total_score = 150, round_score = 40,
                         has_stayed = False, is_busted = False \<rparr>] \<rparr> > 0)
   \<and> decide_hit_or_stay (init None None None)
        \<lparr> my_player_id = ''p1'', my_round_score = 120, my_flip_three_active = True,
          my_flip_three_count = 0,
          opponents = [\<lparr> player_id = ''p2'', total_score = 150, round_score = 40,
                         has_stayed = False, is_busted = False \<rparr>] \<rparr> = False
   \<and> decide_hit_or_stay (init None None None)
        \<lparr> my_player_id = ''p1'', my_round_score = 120, my_flip_three_active = False,
          my_flip_three_count = 3,
          opponents = [\<lparr> player_id = ''p2'', total_score = 150, round_score = 60,
                         has_stayed = False, is_busted = False \<rparr>] \<rparr> = True"
  using decide_hit_or_stay_threshold_rule
          [of "\<lparr> my_player_id = ''p1'', my_round_score = 120, my_flip_three_active = True,
                 my_flip_three_count = 0,
                 opponents = [\<lparr> player_id = ''p2'', total_score = 150, round_score = 40,
                                has_stayed = False, is_busted = False \<rparr>] \<rparr>"
              "init None None None"]
        decide_hit_or_stay_threshold_rule
          [of "\<lparr> my_player_id = ''p1'', my_round_score = 120, my_flip_three_active = False,
                 my_flip_three_count = 3,
                 opponents = [\<lparr> player_id = ''p2'', total_score = 150, round_score = 60,
                                has_stayed = False, is_busted = False \<rparr>] \<rparr>"
              "init None None None"]
  by (simp add: init_def opponent_can_win_def threatens_def)

section \<open>The Second Chance discard\<close>

text \<open>
  C6. For a non-empty \<open>duplicate_cards\<close>, \<open>decide_second_chance_discard\<close> returns the
  last element of the sequence, the most recently drawn card: it reads position
  \<open>len - 1\<close>. For a sequence of at least two cards that position is not the first one,
  and the card returned differs from the first card whenever the cards of the sequence
  are different cards.
\<close>

theorem decide_second_chance_discard_last:
  assumes "duplicate_cards \<noteq> []"
  shows "decide_second_chance_discard self ctx duplicate_value duplicate_cards
           = Inr (last duplicate_cards)
         \<and> py_index duplicate_cards (- 1) = Inr (length duplicate_cards - 1)
         \<and> (length duplicate_cards \<ge> 2 \<longrightarrow>
              py_index duplicate_cards (- 1) \<noteq> Inr 0
              \<and> (distinct duplicate_cards \<longrightarrow>
                   decide_second_chance_discard self ctx duplicate_value duplicate_cards
                     \<noteq> Inr (hd duplicate_cards)))"
proof -
  have pos: "py_index duplicate_cards (- 1) = Inr (length duplicate_cards - 1)"
    using assms by (rule py_index_last)
  have res: "decide_second_chance_discard self ctx duplicate_value duplicate_cards
               = Inr (last duplicate_cards)"
    using assms by (simp add: decide_second_chance_discard_def py_getitem_def pos last_conv_nth)
  have "last duplicate_cards \<noteq> hd duplicate_cards"
    if "length duplicate_cards \<ge> 2" and "distinct duplicate_cards"
  proof -
    from that(1) obtain x y ys where "duplicate_cards = x # y # ys"
      by (cases duplicate_cards; cases "tl duplicate_cards") auto
    with that(2) show ?thesis by auto
  qed
  with pos res show ?thesis by auto
qed

theorem decide_second_chance_discard_last_witness:
  "[(7::nat, ''first''), (7, ''second'')] \<noteq> []
   \<and> decide_second_chance_discard (init None None None)
        \<lparr> my_player_id = ''p1'', my_round_score = 30, my_flip_three_active = False,
          my_flip_three_count = 0, opponents = [] \<rparr>
        7 [(7::nat, ''first''), (7, ''second'')] = Inr (7, ''second'')
   \<and> py_index [(7::nat, ''first''), (7, ''second'')] (- 1) = Inr 1
   \<and> decide_second_chance_discard (init None None None)
        \<lparr> my_player_id = ''p1'', my_round_score = 30, my_flip_three_active = False,
          my_flip_three_count = 0, opponents = [] \<rparr>
        7 [(7::nat, ''first''), (7, ''second'')] \<noteq> Inr (7, ''first'')"
proof -
  let ?cards = "[(7::nat, ''first''), (7, ''second'')]"
  have nonempty: "?cards \<noteq> []" by simp
  from decide_second_chance_discard_last [OF nonempty]
  show ?thesis by simp
qed

section \<open>Choosing a target\<close>

text \<open>
  The second comprehension of both targeting methods filters the opponents by the ids
  collected in the first one, which selects the same opponents again. Both methods then
  are a \<open>max\<close> over the dict built from the eligible opponents.
\<close>

lemma filter_by_filtered_ids:
  "filter (\<lambda>opp. player_id opp \<in> set (map player_id (filter (\<lambda>opp. player_id opp \<in> set ts) os))) os
   = filter (\<lambda>opp. player_id opp \<in> set ts) os"
  by (rule filter_cong) auto

lemma decide_flip_three_target_eligible:
  "decide_flip_three_target self ctx ts =
     (if eligible_opponents ctx ts = [] then Inr (my_player_id ctx)
      else py_max (dict_getitem (dict_of_pairs (map (\<lambda>opp. (player_id opp, total_score opp)) (eligible_opponents ctx ts))))
             (dict_keys (dict_of_pairs (map (\<lambda>opp. (player_id opp, total_score opp)) (eligible_opponents ctx ts)))))"
  unfolding decide_flip_three_target_def eligible_opponents_def Let_def filter_by_filtered_ids
  by simp

lemma decide_freeze_target_flip_three:
  "decide_freeze_target self ctx ts =
     (if my_round_score ctx \<ge> target_score self then Inr (my_player_id ctx)
      else decide_flip_three_target self ctx ts)"
  by (simp add: decide_freeze_target_def decide_flip_three_target_def)

lemma eligible_dict_nonempty_keys:
  assumes "eligible_opponents ctx ts \<noteq> []"
  shows "dict_keys (dict_of_pairs (map (\<lambda>opp. (player_id opp, total_score opp))
                                   (eligible_opponents ctx ts))) \<noteq> []"
proof -
  from assms obtain opp where "opp \<in> set (eligible_opponents ctx ts)"
    by (cases "eligible_opponents ctx ts") auto
  then have "player_id opp \<in> fst ` set (map (\<lambda>opp. (player_id opp, total_score opp))
                                           (eligible_opponents ctx ts))"
    by force
  then show ?thesis
    unfolding dict_of_pairs_keys [symmetric] by auto
qed

lemma decide_flip_three_target_returns:
  assumes "eligible_opponents ctx ts \<noteq> []"
  shows "\<exists>opp \<in> set (eligible_opponents ctx ts).
           decide_flip_three_target self ctx ts = Inr (player_id opp)"
proof -
  let ?d = "dict_of_pairs (map (\<lambda>opp. (player_id opp, total_score opp)) (eligible_opponents ctx ts))"
  have keys: "set (dict_keys ?d) = player_id ` set (eligible_opponents ctx ts)"
    by (simp add: dict_of_pairs_keys image_image)
  have nonempty: "dict_keys ?d \<noteq> []"
    using assms by (rule eligible_dict_nonempty_keys)
  have "\<forall>pid \<in> set (dict_keys ?d). \<exists>v. dict_getitem ?d pid = Inr v"
    by (simp add: dict_keys_def dict_getitem_present)
  from py_max_returns [OF nonempty this]
  obtain r where "r \<in> set (dict_keys ?d)" and "py_max (dict_getitem ?d) (dict_keys ?d) = Inr r"
    by blast
  with keys assms show ?thesis
    by (auto simp: decide_flip_three_target_eligible)
qed

lemma eligible_opponents_player_id:
  "opp \<in> set (eligible_opponents ctx ts) \<Longrightarrow> player_id opp \<in> set ts \<and> opp \<in> set (opponents ctx)"
  by (simp add: eligible_opponents_def)

text \<open>
  C7. When no \<open>player_id\<close> of \<open>possible_targets\<close> occurs among \<open>context.opponents\<close>,
  \<open>decide_flip_three_target\<close> and \<open>decide_freeze_target\<close> both return the caller's own
  \<open>my_player_id\<close>.
\<close>

theorem targets_without_eligible_opponent:
  assumes "\<forall>pid \<in> set possible_targets. pid \<notin> player_id ` set (opponents ctx)"
  shows "decide_flip_three_target self ctx possible_targets = Inr (my_player_id ctx)
         \<and> decide_freeze_target self ctx possible_targets = Inr (my_player_id ctx)"
proof -
  from assms have "eligible_opponents ctx possible_targets = []"
    by (auto simp: eligible_opponents_def filter_empty_conv)
  then show ?thesis
    by (simp add: decide_freeze_target_flip_three decide_flip_three_target_eligible)
qed

theorem targets_without_eligible_opponent_witness:
  "decide_flip_three_target (init None None None)
     \<lparr> my_player_id = ''p1'', my_round_score = 30, my_flip_three_active = False,
       my_flip_three_count = 0,
       opponents = [\<lparr> player_id = ''p2'', total_score = 80, round_score = 0,
                      has_stayed = False, is_busted = False \<rparr>] \<rparr>
     [''p1'', ''p4''] = Inr ''p1''
   \<and> decide_freeze_target (init None None None)
     \<lparr> my_player_id = ''p1'', my_round_score = 30, my_flip_three_active = False,
       my_flip_three_count = 0,
       opponents = [\<lparr> player_id = ''p2'', total_score = 80, round_score = 0,
                      has_stayed = False, is_busted = False \<rparr>] \<rparr>
     [''p1'', ''p4''] = Inr ''p1''"
proof -
  let ?ctx = "\<lparr> my_player_id = ''p1'', my_round_score = 30, my_flip_three_active = False,
                my_flip_three_count = 0,
                opponents = [\<lparr> player_id = ''p2'', total_score = 80, round_score = 0,
                               has_stayed = False, is_busted = False \<rparr>] \<rparr>"
  have none: "\<forall>pid \<in> set [''p1'', ''p4'']. pid \<notin> player_id ` set (opponents ?ctx)"
    by simp
  from targets_without_eligible_opponent [OF none, of "init None None None"]
  show ?thesis by simp
qed

text \<open>
  C8. When \<open>my_round_score \<ge> target_score\<close>, \<open>decide_freeze_target\<close> returns the
  caller's own \<open>my_player_id\<close>, for every \<open>possible_targets\<close> and whatever the
  opponents' scores and eligibility are.
\<close>

theorem decide_freeze_target_self_at_target:
  "my_round_score ctx \<ge> target_score self \<Longrightarrow>
   decide_freeze_target self ctx possible_targets = Inr (my_player_id ctx)"
  by (simp add: decide_freeze_target_def)

theorem decide_freeze_target_self_at_target_witness:
  "my_round_score
     \<lparr> my_player_id = ''p1'', my_round_score = 100, my_flip_three_active = False,
       my_flip_three_count = 0,
       opponents = [\<lparr> player_id = ''p2'', total_score = 180, round_score = 0,
                      has_stayed = False, is_busted = False \<rparr>] \<rparr>
     \<ge> target_score (init None (Some 100) None)
   \<and> decide_freeze_target (init None (Some 100) None)
     \<lparr> my_player_id = ''p1'', my_round_score = 100, my_flip_three_active = False,
       my_flip_three_count = 0,
       opponents = [\<lparr> player_id = ''p2'', total_score = 180, round_score = 0,
                      has_stayed = False, is_busted = False \<rparr>] \<rparr>
     [''p1'', ''p2''] = Inr ''p1''"
proof -
  let ?ctx = "\<lparr> my_player_id = ''p1'', my_round_score = 100, my_flip_three_active = False,
                my_flip_three_count = 0,
                opponents = [\<lparr> player_id = ''p2'', total_score = 180, round_score = 0,
                               has_stayed = False, is_busted = False \<rparr>] \<rparr>"
  have reached: "my_round_score ?ctx \<ge> target_score (init None (Some 100) None)"
    by (simp add: init_def)
  from decide_freeze_target_self_at_target [OF reached, of "[''p1'', ''p2'']"] reached
  show ?thesis by simp
qed

text \<open>
  C3, as amended. \<open>decide_flip_three_target\<close> always returns a player identifier and never
  raises. When some opponent is eligible, the identifier is the \<open>player_id\<close> of an
  eligible opponent and so is drawn from \<open>possible_targets\<close>. When no opponent is
  eligible, it is the caller's own \<open>my_player_id\<close>, which is drawn from
  \<open>possible_targets\<close> only if the caller is listed there.
\<close>

theorem decide_flip_three_target_result:
  "\<exists>r. decide_flip_three_target self ctx possible_targets = Inr r
       \<and> (if eligible_opponents ctx possible_targets = [] then r = my_player_id ctx
          else r \<in> set possible_targets
               \<and> r \<in> player_id ` set (eligible_opponents ctx possible_targets))
       \<and> (eligible_opponents ctx possible_targets \<noteq> [] \<or> my_player_id ctx \<in> set possible_targets
            \<longrightarrow> r \<in> set possible_targets)"
proof (cases "eligible_opponents ctx possible_targets = []")
  case True
  then show ?thesis by (simp add: decide_flip_three_target_eligible)
next
  case False
  from decide_flip_three_target_returns [OF False, of self]
  obtain opp where "opp \<in> set (eligible_opponents ctx possible_targets)"
    and "decide_flip_three_target self ctx possible_targets = Inr (player_id opp)"
    by blast
  with False eligible_opponents_player_id [of opp ctx possible_targets] show ?thesis
    by auto
qed

theorem decide_flip_three_target_result_witness:
  "decide_flip_three_target (init None None None)
     \<lparr> my_player_id = ''p1'', my_round_score = 30, my_flip_three_active = False,
       my_flip_three_count = 0,
       opponents = [\<lparr> player_id = ''p2'', total_score = 80, round_score = 0,
                      has_stayed = False, is_busted = False \<rparr>,
                    \<lparr> player_id = ''p3'', total_score = 120, round_score = 0,
                      has_stayed = False, is_busted = False \<rparr>] \<rparr>
     [''p1'', ''p3''] = Inr ''p3''
   \<and> decide_flip_three_target (init None None None)
     \<lparr> my_player_id = ''p1'', my_round_score = 30, my_flip_three_active = False,
       my_flip_three_count = 0,
       opponents = [\<lparr> player_id = ''p2'', total_score = 80, round_score = 0,
                      has_stayed = False, is_busted = False \<rparr>] \<rparr>
     [''p1''] = Inr ''p1''"
proof -
  let ?o2 = "\<lparr> player_id = ''p2'', total_score = 80, round_score = 0,
                has_stayed = False, is_busted = False \<rparr>"
  let ?o3 = "\<lparr> player_id = ''p3'', total_score = 120, round_score = 0,
                has_stayed = False, is_busted = False \<rparr>"
  let ?a = "\<lparr> my_player_id = ''p1'', my_round_score = 30, my_flip_three_active = False,
              my_flip_three_count = 0, opponents = [?o2, ?o3] \<rparr>"
  let ?b = "\<lparr> my_player_id = ''p1'', my_round_score = 30, my_flip_three_active = False,
              my_flip_three_count = 0, opponents = [?o2] \<rparr>"
  have ea: "eligible_opponents ?a [''p1'', ''p3''] = [?o3]"
    and eb: "eligible_opponents ?b [''p1''] = []"
    by (simp_all add: eligible_opponents_def)
  from decide_flip_three_target_result [of "init None None None" ?a "[''p1'', ''p3'']"]
  have "decide_flip_three_target (init None None None) ?a [''p1'', ''p3''] = Inr ''p3''"
    unfolding ea by auto
  moreover
  from decide_flip_three_target_result [of "init None None None" ?b "[''p1'']"]
  have "decide_flip_three_target (init None None None) ?b [''p1''] = Inr ''p1''"
    unfolding eb by auto
  ultimately show ?thesis by simp
qed

text \<open>
  C3 as stated fails: with \<open>possible_targets = ["p3"]\<close>, a caller \<open>p1\<close> and the single
  opponent \<open>p2\<close>, no opponent is eligible and the method falls back to \<open>p1\<close>, which is
  not in \<open>possible_targets\<close>.
\<close>

theorem decide_flip_three_target_outside_possible_targets:
  "decide_flip_three_target (init None None None)
     \<lparr> my_player_id = ''p1'', my_round_score = 30, my_flip_three_active = False,
       my_flip_three_count = 0,
       opponents = [\<lparr> player_id = ''p2'', total_score = 80, round_score = 0,
                      has_stayed = False, is_busted = False \<rparr>] \<rparr>
     [''p3''] = Inr ''p1''
   \<and> ''p1'' \<notin> set [''p3'']"
  by (simp add: decide_flip_three_target_def)

text \<open>
  When some opponent is eligible and the eligible opponents have pairwise different
  \<open>player_id\<close>s, \<open>decide_flip_three_target\<close> returns the \<open>player_id\<close> of the eligible
  opponent \<open>best\<close> with the highest \<open>total_score\<close>, the first such opponent in the order
  of \<open>context.opponents\<close>: every eligible opponent before \<open>best\<close> has a strictly lower
  \<open>total_score\<close>, and every one after it has at most the \<open>total_score\<close> of \<open>best\<close>.
  \<open>decide_freeze_target\<close> returns the same \<open>player_id\<close> when
  \<open>my_round_score < target_score\<close>.
\<close>

lemma targets_highest_total_score_first:
  assumes "eligible_opponents ctx possible_targets \<noteq> []"
    and "distinct (map player_id (eligible_opponents ctx possible_targets))"
  shows "\<exists>before best after.
           eligible_opponents ctx possible_targets = before @ best # after
           \<and> (\<forall>opp \<in> set before. total_score opp < total_score best)
           \<and> (\<forall>opp \<in> set after. total_score opp \<le> total_score best)
           \<and> decide_flip_three_target self ctx possible_targets = Inr (player_id best)
           \<and> (my_round_score ctx < target_score self \<longrightarrow>
                decide_freeze_target self ctx possible_targets = Inr (player_id best))"
proof -
  let ?el = "eligible_opponents ctx possible_targets"
  let ?ps = "map (\<lambda>opp. (player_id opp, total_score opp)) ?el"
  have keys: "map fst ?ps = map player_id ?el" by simp
  with assms(2) have dist: "distinct (map fst ?ps)" by (simp only:)
  then have dict: "dict_of_pairs ?ps = ?ps" by (rule dict_of_pairs_distinct)
  have lookup: "\<forall>opp \<in> set ?el. dict_getitem ?ps (player_id opp) = Inr (total_score opp)"
  proof
    fix opp assume "opp \<in> set ?el"
    then have "(player_id opp, total_score opp) \<in> set ?ps" by force
    with dist show "dict_getitem ?ps (player_id opp) = Inr (total_score opp)"
      by (rule dict_getitem_distinct)
  qed
  from py_max_first_max [of ?el "dict_getitem ?ps" player_id total_score, OF assms(1) lookup]
  obtain before best after where split: "?el = before @ best # after"
    and picked: "py_max (dict_getitem ?ps) (map player_id ?el) = Inr (player_id best)"
    and lower: "\<forall>opp \<in> set before. total_score opp < total_score best"
    and upper: "\<forall>opp \<in> set after. total_score opp \<le> total_score best"
    by blast
  have "dict_keys ?ps = map player_id ?el" by (simp add: dict_keys_def)
  with picked dict assms(1)
  have flip: "decide_flip_three_target self ctx possible_targets = Inr (player_id best)"
    by (simp only: decide_flip_three_target_eligible if_False)
  then have "my_round_score ctx < target_score self \<longrightarrow>
               decide_freeze_target self ctx possible_targets = Inr (player_id best)"
    by (simp add: decide_freeze_target_flip_three)
  with split lower upper flip show ?thesis by blast
qed

lemma targets_highest_total_score_first_example:
  "eligible_opponents
     \<lparr> my_player_id = ''p1'', my_round_score = 30, my_flip_three_active = False,
       my_flip_three_count = 0,
       opponents = [\<lparr> player_id = ''p2'', total_score = 80, round_score = 0,
                      has_stayed = False, is_busted = False \<rparr>,
                    \<lparr> player_id = ''p3'', total_score = 120, round_score = 0,
                      has_stayed = False, is_busted = False \<rparr>,
                    \<lparr> player_id = ''p4'', total_score = 120, round_score = 0,
                      has_stayed = False, is_busted = False \<rparr>] \<rparr>
     [''p4'', ''p3'', ''p2'', ''p1''] \<noteq> []
   \<and> distinct (map player_id (eligible_opponents
     \<lparr> my_player_id = ''p1'', my_round_score = 30, my_flip_three_active = False,
       my_flip_three_count = 0,
       opponents = [\<lparr> player_id = ''p2'', total_score = 80, round_score = 0,
                      has_stayed = False, is_busted = False \<rparr>,
                    \<lparr> player_id = ''p3'', total_score = 120, round_score = 0,
                      has_stayed = False, is_busted = False \<rparr>,
                    \<lparr> player_id = ''p4'', total_score = 120, round_score = 0,
                      has_stayed = False, is_busted = False \<rparr>] \<rparr>
     [''p4'', ''p3'', ''p2'', ''p1'']))
   \<and> decide_flip_three_target (init None None None)
     \<lparr> my_player_id = ''p1'', my_round_score = 30, my_flip_three_active = False,
       my_flip_three_count = 0,
       opponents = [\<lparr> player_id = ''p2'', total_score = 80, round_score = 0,
                      has_stayed = False, is_busted = False \<rparr>,
                    \<lparr> player_id = ''p3'', total_score = 120, round_score = 0,
                      has_stayed = False, is_busted = False \<rparr>,
                    \<lparr> player_id = ''p4'', total_score = 120, round_score = 0,
                      has_stayed = False, is_busted = False \<rparr>] \<rparr>
     [''p4'', ''p3'', ''p2'', ''p1''] = Inr ''p3''
   \<and> decide_freeze_target (init None None None)
     \<lparr> my_player_id = ''p1'', my_round_score = 30, my_flip_three_active = False,
       my_flip_three_count = 0,
       opponents = [\<lparr> player_id = ''p2'', total_score = 80, round_score = 0,
                      has_stayed = False, is_busted = False \<rparr>,
                    \<lparr> player_id = ''p3'', total_score = 120, round_score = 0,
                      has_stayed = False, is_busted = False \<rparr>,
                    \<lparr> player_id = ''p4'', total_score = 120, round_score = 0,
                      has_stayed = False, is_busted = False \<rparr>] \<rparr>
     [''p4'', ''p3'', ''p2'', ''p1''] = Inr ''p3''"
proof -
  let ?o2 = "\<lparr> player_id = ''p2'', total_score = 80, round_score = 0,
                has_stayed = False, is_busted = False \<rparr>"
  let ?o3 = "\<lparr> player_id = ''p3'', total_score = 120, round_score = 0,
                has_stayed = False, is_busted = False \<rparr>"
  let ?o4 = "\<lparr> player_id = ''p4'', total_score = 120, round_score = 0,
                has_stayed = False, is_busted = False \<rparr>"
  let ?ctx = "\<lparr> my_player_id = ''p1'', my_round_score = 30, my_flip_three_active = False,
                my_flip_three_count = 0, opponents = [?o2, ?o3, ?o4] \<rparr>"
  let ?ts = "[''p4'', ''p3'', ''p2'', ''p1'']"
  let ?self = "init None None None"
  have el: "eligible_opponents ?ctx ?ts = [?o2, ?o3, ?o4]"
    by (simp add: eligible_opponents_def)
  have nonempty: "eligible_opponents ?ctx ?ts \<noteq> []"
    and ids: "distinct (map player_id (eligible_opponents ?ctx ?ts))"
    unfolding el by simp_all
  have below: "my_round_score ?ctx < target_score ?self"
    by (simp add: init_def)
  from targets_highest_total_score_first [OF nonempty ids, of ?self]
  obtain before best after where split: "[?o2, ?o3, ?o4] = before @ best # after"
    and lower: "\<forall>opp \<in> set before. total_score opp < total_score best"
    and upper: "\<forall>opp \<in> set after. total_score opp \<le> total_score best"
    and flip: "decide_flip_three_target ?self ?ctx ?ts = Inr (player_id best)"
    and freeze: "my_round_score ?ctx < target_score ?self \<longrightarrow>
                   decide_freeze_target ?self ?ctx ?ts = Inr (player_id best)"
    unfolding el by blast
  from split lower upper have "best = ?o3"
    by (auto simp: Cons_eq_append_conv)
  with flip freeze below nonempty ids show ?thesis by simp
qed


section \<open>Calls do not change the object\<close>

text \<open>
  Each method, run as a program on the object, answers what the function of the same
  name computes from the object and the arguments, and leaves the object as it found
  it. The loop of \<open>opponent_can_win\<close> reads \<open>distance_from_200\<close> anew for every opponent.
\<close>

lemma opponent_can_win_m_loop_run:
  "run_state (opponent_can_win_m_loop os) self = (opponent_can_win_loop self os, self)"
  by (induction os) simp_all

lemma opponent_can_win_m_run:
  "run_state (opponent_can_win_m ctx) self = (opponent_can_win self ctx, self)"
  by (simp add: opponent_can_win_m_def opponent_can_win_def opponent_can_win_m_loop_run)

lemma decide_hit_or_stay_m_run:
  "run_state (decide_hit_or_stay_m ctx) self = (decide_hit_or_stay self ctx, self)"
  by (simp add: decide_hit_or_stay_m_def decide_hit_or_stay_def opponent_can_win_m_run)

lemma decide_second_chance_discard_m_run:
  "run_state (decide_second_chance_discard_m ctx v cards) self
     = (decide_second_chance_discard self ctx v cards, self)"
  by (simp add: decide_second_chance_discard_m_def decide_second_chance_discard_def)

lemma decide_flip_three_target_m_run:
  "run_state (decide_flip_three_target_m ctx ts) self = (decide_flip_three_target self ctx ts, self)"
  by (simp add: decide_flip_three_target_m_def decide_flip_three_target_def Let_def)

lemma decide_freeze_target_m_run:
  "run_state (decide_freeze_target_m ctx ts) self = (decide_freeze_target self ctx ts, self)"
  by (simp add: decide_freeze_target_m_def decide_freeze_target_def Let_def)

lemma invoke_object: "snd (run_state (invoke c) self) = self"
  by (cases c)
     (simp_all add: opponent_can_win_m_run decide_hit_or_stay_m_run
        decide_second_chance_discard_m_run decide_flip_three_target_m_run
        decide_freeze_target_m_run)

lemma run_object: "snd (run_state (run cs) self) = self"
proof (induction cs arbitrary: self)
  case Nil
  show ?case by simp
next
  case (Cons c cs)
  obtain r self' where step: "run_state (invoke c) self = (r, self')"
    by (cases "run_state (invoke c) self")
  with invoke_object [of c self] have same: "self' = self" by simp
  obtain rs self'' where rest: "run_state (run cs) self' = (rs, self'')"
    by (cases "run_state (run cs) self'")
  with Cons.IH [of self'] have "self'' = self'" by simp
  with same step rest show ?case by simp
qed

lemma opponent_can_win_loop_cong:
  "distance_from_200 self' = distance_from_200 self \<Longrightarrow>
   opponent_can_win_loop self' os = opponent_can_win_loop self os"
  by (induction os) simp_all

lemma invoke_reads_configuration:
  "target_score self' = target_score self \<Longrightarrow>
   distance_from_200 self' = distance_from_200 self \<Longrightarrow>
   fst (run_state (invoke c) self') = fst (run_state (invoke c) self)"
  by (cases c)
     (simp_all add: opponent_can_win_m_run decide_hit_or_stay_m_run
        decide_second_chance_discard_m_run decide_flip_three_target_m_run
        decide_freeze_target_m_run
        decide_hit_or_stay_def opponent_can_win_def decide_freeze_target_def
        decide_flip_three_target_def decide_second_chance_discard_def
        opponent_can_win_loop_cong [of self' self])

text \<open>
  C9. No operation modifies \<open>target_score\<close> or \<open>distance_from_200\<close>: run on an object,
  each of the five operations returns its answer and leaves the object as it was, and so
  does every sequence of calls. Every operation is a function of its arguments and these
  two constants: a call made after any sequence of earlier calls answers what the same
  call answers on the untouched object, and two objects that agree on \<open>target_score\<close>
  and \<open>distance_from_200\<close> answer every call alike.
\<close>

theorem operations_leave_object_and_repeat:
  fixes c :: "'card call" and cs :: "'card call list" and cards :: "'card list"
  shows "run_state (decide_hit_or_stay_m ctx) self = (decide_hit_or_stay self ctx, self)
         \<and> run_state (decide_second_chance_discard_m ctx v cards) self
             = (decide_second_chance_discard self ctx v cards, self)
         \<and> run_state (decide_flip_three_target_m ctx ts) self
             = (decide_flip_three_target self ctx ts, self)
         \<and> run_state (decide_freeze_target_m ctx ts) self
             = (decide_freeze_target self ctx ts, self)
         \<and> run_state (opponent_can_win_m ctx) self = (opponent_can_win self ctx, self)
         \<and> snd (run_state (run cs) self) = self
         \<and> fst (run_state (do { rs \<leftarrow> run cs; invoke c }) self) = fst (run_state (invoke c) self)
         \<and> (target_score self' = target_score self
              \<and> distance_from_200 self' = distance_from_200 self
              \<longrightarrow> fst (run_state (invoke c) self') = fst (run_state (invoke c) self))"
proof -
  have "fst (run_state (do { rs \<leftarrow> run cs; invoke c }) self) = fst (run_state (invoke c) self)"
  proof -
    obtain rs self' where earlier: "run_state (run cs) self = (rs, self')"
      by (cases "run_state (run cs) self")
    with run_object [of cs self] have "self' = self" by simp
    with earlier show ?thesis by simp
  qed
  moreover note invoke_reads_configuration [of self' self c]
  ultimately show ?thesis
    by (simp add: opponent_can_win_m_run decide_hit_or_stay_m_run
        decide_second_chance_discard_m_run decide_flip_three_target_m_run
        decide_freeze_target_m_run run_object)
qed

theorem operations_leave_object_and_repeat_witness:
  "target_score (init (Some ''second'') (Some 100) (Some 20))
     = target_score (init None (Some 100) (Some 20))
   \<and> distance_from_200 (init (Some ''second'') (Some 100) (Some 20))
     = distance_from_200 (init None (Some 100) (Some 20))
   \<and> fst (run_state
        (invoke (Decide_hit_or_stay
           \<lparr> my_player_id = ''p1'', my_round_score = 120, my_flip_three_active = False,
             my_flip_three_count = 0,
             opponents = [\<lparr> player_id = ''p2'', total_score = 150, round_score = 40,
                            has_stayed = False, is_busted = False \<rparr>] \<rparr>
         :: nat call))
        (init (Some ''second'') (Some 100) (Some 20)))
     = Hit True
   \<and> fst (run_state
        (do { rs \<leftarrow> run [Decide_freeze_target
                         \<lparr> my_player_id = ''p1'', my_round_score = 20,
                           my_flip_three_active = False, my_flip_three_count = 0,
                           opponents = [\<lparr> player_id = ''p2'', total_score = 150,
                                          round_score = 40, has_stayed = False,
                                          is_busted = False \<rparr>] \<rparr>
                         [''p1'', ''p2''],
                       Decide_second_chance_discard
                         \<lparr> my_player_id = ''p1'', my_round_score = 20,
                           my_flip_three_active = False, my_flip_three_count = 0,
                           opponents = [] \<rparr>
                         7 [1, 2 :: nat]];
              invoke (Decide_hit_or_stay
                \<lparr> my_player_id = ''p1'', my_round_score = 120, my_flip_three_active = False,
                  my_flip_three_count = 0,
                  opponents = [\<lparr> player_id = ''p2'', total_score = 150, round_score = 40,
                                 has_stayed = False, is_busted = False \<rparr>] \<rparr>
                :: nat call) })
        (init None (Some 100) (Some 20)))
     = Hit True
   \<and> snd (run_state
        (run [Decide_freeze_target
                \<lparr> my_player_id = ''p1'', my_round_score = 20,
                  my_flip_three_active = False, my_flip_three_count = 0,
                  opponents = [\<lparr> player_id = ''p2'', total_score = 150,
                                 round_score = 40, has_stayed = False,
                                 is_busted = False \<rparr>] \<rparr>
                [''p1'', ''p2''],
              Decide_second_chance_discard
                \<lparr> my_player_id = ''p1'', my_round_score = 20,
                  my_flip_three_active = False, my_flip_three_count = 0,
                  opponents = [] \<rparr>
                7 [1, 2 :: nat]])
        (init None (Some 100) (Some 20)))
     = init None (Some 100) (Some 20)"
proof -
  let ?first = "init None (Some 100) (Some 20)"
  let ?second = "init (Some ''second'') (Some 100) (Some 20)"
  let ?ctx = "\<lparr> my_player_id = ''p1'', my_round_score = 120, my_flip_three_active = False,
                my_flip_three_count = 0,
                opponents = [\<lparr> player_id = ''p2'', total_score = 150, round_score = 40,
                               has_stayed = False, is_busted = False \<rparr>] \<rparr>"
  let ?call = "Decide_hit_or_stay ?ctx :: nat call"
  let ?earlier = "[Decide_freeze_target
                     \<lparr> my_player_id = ''p1'', my_round_score = 20,
                       my_flip_three_active = False, my_flip_three_count = 0,
                       opponents = [\<lparr> player_id = ''p2'', total_score = 150,
                                      round_score = 40, has_stayed = False,
                                      is_busted = False \<rparr>] \<rparr>
                     [''p1'', ''p2''],
                   Decide_second_chance_discard
                     \<lparr> my_player_id = ''p1'', my_round_score = 20,
                       my_flip_three_active = False, my_flip_three_count = 0,
                       opponents = [] \<rparr>
                     7 [1, 2 :: nat]]"
  have same: "target_score ?second = target_score ?first
              \<and> distance_from_200 ?second = distance_from_200 ?first"
    by (simp add: init_def)
  have hit: "decide_hit_or_stay ?first ?ctx"
    by (simp add: init_def decide_hit_or_stay_def opponent_can_win_def)
  note ops = operations_leave_object_and_repeat
               [of ?ctx ?first 7 "[1, 2 :: nat]" "[''p1'', ''p2'']" ?earlier ?call ?second]
  from ops have "run_state (decide_hit_or_stay_m ?ctx) ?first = (decide_hit_or_stay ?first ?ctx, ?first)"
    by (rule conjunct1)
  with hit have alone: "fst (run_state (invoke ?call) ?first) = Hit True"
    by simp
  note rest = ops [THEN conjunct2, THEN conjunct2, THEN conjunct2, THEN conjunct2, THEN conjunct2]
  from rest have object: "snd (run_state (run ?earlier) ?first) = ?first"
    by (rule conjunct1)
  from rest have "fst (run_state (do { rs \<leftarrow> run ?earlier; invoke ?call }) ?first)
                    = fst (run_state (invoke ?call) ?first)"
    by (rule conjunct2 [THEN conjunct1])
  with alone have later: "fst (run_state (do { rs \<leftarrow> run ?earlier; invoke ?call }) ?first)
                            = Hit True"
    by (simp only:)
  from rest [THEN conjunct2, THEN conjunct2, THEN mp, OF same] alone
  have other: "fst (run_state (invoke ?call) ?second) = Hit True"
    by (simp only:)
  from same other later object show ?thesis
    by (simp only: simp_thms)
qed

section \<open>A larger distance from 200 never turns a hit into a stay\<close>

lemma threatens_mono:
  "distance_from_200 self \<le> distance_from_200 self' \<Longrightarrow>
   threatens self opp \<Longrightarrow> threatens self' opp"
  by (auto simp: threatens_def)

text \<open>
  C10. \<open>opponent_can_win\<close> is monotone in \<open>distance_from_200\<close>: for two strategies with
  the same \<open>target_score\<close> and distances \<open>d \<le> d'\<close>, whenever the one with \<open>d\<close>
  returns true on a context, so does the one with \<open>d'\<close>; the same holds for
  \<open>decide_hit_or_stay\<close>.
\<close>

theorem opponent_can_win_mono_distance:
  assumes "target_score self' = target_score self"
    and "distance_from_200 self \<le> distance_from_200 self'"
  shows "(opponent_can_win self ctx \<longrightarrow> opponent_can_win self' ctx)
         \<and> (decide_hit_or_stay self ctx \<longrightarrow> decide_hit_or_stay self' ctx)"
proof -
  have win: "opponent_can_win self' ctx" if "opponent_can_win self ctx"
    using that threatens_mono [OF assms(2)]
    by (auto simp: opponent_can_win_def opponent_can_win_loop_iff)
  then show ?thesis
    using assms(1) by (auto simp: decide_hit_or_stay_def)
qed

theorem opponent_can_win_mono_distance_witness:
  "target_score (init None (Some 100) (Some 25)) = target_score (init None (Some 100) (Some 10))
   \<and> distance_from_200 (init None (Some 100) (Some 10))
       \<le> distance_from_200 (init None (Some 100) (Some 25))
   \<and> opponent_can_win (init None (Some 100) (Some 10))
        \<lparr> my_player_id = ''p1'', my_round_score = 120, my_flip_three_active = False,
          my_flip_three_count = 0,
          opponents = [\<lparr> player_id = ''p2'', total_score = 150, round_score = 40,
                         has_stayed = False, is_busted = False \<rparr>] \<rparr>
   \<and> opponent_can_win (init None (Some 100) (Some 25))
        \<lparr> my_player_id = ''p1'', my_round_score = 120, my_flip_three_active = False,
          my_flip_three_count = 0,
          opponents = [\<lparr> player_id = ''p2'', total_score = 150, round_score = 40,
                         has_stayed = False, is_busted = False \<rparr>] \<rparr>
   \<and> decide_hit_or_stay (init None (Some 100) (Some 25))
        \<lparr> my_player_id = ''p1'', my_round_score = 120, my_flip_three_active = False,
          my_flip_three_count = 0,
          opponents = [\<lparr> player_id = ''p2'', total_score = 150, round_score = 40,
                         has_stayed = False, is_busted = False \<rparr>] \<rparr>"
proof -
  let ?near = "init None (Some 100) (Some 10)"
  let ?far = "init None (Some 100) (Some 25)"
  let ?ctx = "\<lparr> my_player_id = ''p1'', my_round_score = 120, my_flip_three_active = False,
                my_flip_three_count = 0,
                opponents = [\<lparr> player_id = ''p2'', total_score = 150, round_score = 40,
                               has_stayed = False, is_busted = False \<rparr>] \<rparr>"
  have target: "target_score ?far = target_score ?near"
    and distance: "distance_from_200 ?near \<le> distance_from_200 ?far"
    by (simp_all add: init_def)
  have near: "opponent_can_win ?near ?ctx"
    by (simp add: init_def opponent_can_win_def)
  then have hit: "decide_hit_or_stay ?near ?ctx"
    by (simp add: decide_hit_or_stay_def)
  from opponent_can_win_mono_distance [OF target distance, of ?ctx] near hit target distance
  show ?thesis by simp
qed

end
